theory Spec2Isabelle
  imports Main
begin

section \<open>Signature data model (internal/signatures.go)\<close>

text \<open>
  Go strings and byte slices are sequences of bytes; both are \<^typ>\<open>string\<close> here
  (a list of 8-bit characters). A Go pointer that may be nil is an \<^typ>\<open>'a option\<close>.
  The status codes are Go \<open>int\<close>s that are only ever compared for equality, so they
  are unbounded integers.
\<close>

text \<open>
  The response type is declared in another file of the package. \<open>Match\<close> reads three
  fields of it: \<open>StatusCode\<close> (compared with an \<open>int\<close>), \<open>Body\<close> (a byte slice) and
  \<open>Header\<close> (a map from a header name to the list of its values).
\<close>

record HTTPResponse =
  StatusCode :: int
  Body :: string
  Header :: "string \<rightharpoonup> string list"

record Check =
  MustMatchOne :: "string list"
  MustMatchAll :: "string list"
  MustNotMatch :: "string list"
  StatusCode :: "int option"
  Name :: string
  Remediation :: string
  Severity :: string
  Description :: string
  Headers :: "string list"
  NoHeaders :: "string list"

record Plugin =
  Endpoints :: "string list"
  Checks :: "Check list"
  FollowRedirects :: bool

record Signatures =
  Plugins :: "Plugin list"

text \<open>
  The errors of the package as values. \<open>ErrNilParameter\<close> is declared in another file of
  the package and carries the name of the nil parameter. \<open>ErrCheckInvalidField\<close> carries
  the check's name, then the field. \<open>ErrForeign\<close> stands for an error produced outside
  this file (reading the stream, the YAML decoder, the severity classifier), and
  \<open>NilDereference\<close> for the run-time panic of reading through a nil pointer.
\<close>

datatype error =
    ErrNilParameter string
  | ErrInvalidHeaderFormat string
  | ErrCheckInvalidField string string
  | ErrInvalidPathSignaturesFile
  | ErrBothEndpointSet
  | ErrForeign string
  | NilDereference

section \<open>The library functions the code calls\<close>

text \<open>\<open>bytes.HasPrefix\<close>: the second argument starts the first.\<close>

fun HasPrefix :: "string \<Rightarrow> string \<Rightarrow> bool" where
  "HasPrefix s [] = True"
| "HasPrefix [] (p # ps) = False"
| "HasPrefix (c # cs) (p # ps) = (c = p \<and> HasPrefix cs ps)"

text \<open>
  \<open>bytes.Contains b sub\<close> and \<open>strings.Contains s sub\<close>: \<open>sub\<close> occurs in \<open>b\<close> at
  some offset, compared byte by byte. The empty \<open>sub\<close> occurs in everything.
\<close>

fun Contains :: "string \<Rightarrow> string \<Rightarrow> bool" where
  "Contains [] sub = (sub = [])"
| "Contains (c # cs) sub = (HasPrefix (c # cs) sub \<or> Contains cs sub)"

text \<open>
  \<open>strings.Count s sep\<close> and \<open>strings.Split s sep\<close> for a separator of one byte, the
  only way the code calls them (the separator is the literal \<open>":"\<close>). \<open>Split\<close> cuts at
  every separator and always returns at least one piece.
\<close>

primrec Count :: "string \<Rightarrow> char \<Rightarrow> nat" where
  "Count [] sep = 0"
| "Count (c # cs) sep = (if c = sep then Suc (Count cs sep) else Count cs sep)"

primrec Split :: "string \<Rightarrow> char \<Rightarrow> string list" where
  "Split [] sep = [[]]"
| "Split (c # cs) sep =
     (if c = sep then [] # Split cs sep
      else (case Split cs sep of
              [] \<Rightarrow> [[c]]
            | piece # pieces \<Rightarrow> (c # piece) # pieces))"

section \<open>Check.Match\<close>

text \<open>
  The result of \<open>Match\<close> is the pair of Go: the verdict and the error, \<open>None\<close> for nil.
  Every loop of the function is a recursive function over the list it ranges over. A
  loop that can return from \<open>Match\<close> yields \<open>Some\<close> of that result, and \<open>None\<close> when it
  runs to its end and the function goes on.
\<close>

type_synonym match_result = "bool \<times> error option"

text \<open>Lines 73-77: the first string of \<open>MustMatchAll\<close> missing from the body ends the match.\<close>

fun matchAllLoop :: "string list \<Rightarrow> string \<Rightarrow> match_result option" where
  "matchAllLoop [] body = None"
| "matchAllLoop (m # ms) body =
     (if \<not> Contains body m then Some (False, None) else matchAllLoop ms body)"

text \<open>Lines 80-86: \<open>found\<close> starts false and is set by the first string that occurs.\<close>

fun matchOneLoop :: "string list \<Rightarrow> string \<Rightarrow> bool \<Rightarrow> bool" where
  "matchOneLoop [] body found = found"
| "matchOneLoop (m # ms) body found =
     (if Contains body m then True else matchOneLoop ms body found)"

text \<open>Lines 92-96: the first string of \<open>MustNotMatch\<close> that occurs ends the match.\<close>

fun notMatchLoop :: "string list \<Rightarrow> string \<Rightarrow> match_result option" where
  "notMatchLoop [] body = None"
| "notMatchLoop (m # ms) body =
     (if Contains body m then Some (False, None) else notMatchLoop ms body)"

text \<open>Lines 115-120 and 137-142: does one of the header's values contain the text.\<close>

fun headerValueLoop :: "string list \<Rightarrow> string \<Rightarrow> bool \<Rightarrow> bool" where
  "headerValueLoop [] hVal found = found"
| "headerValueLoop (v # vs) hVal found =
     (if Contains v hVal then True else headerValueLoop vs hVal found)"

text \<open>Lines 99-124. The two index reads are inside the guard \<open>len(hs) = 2\<close>.\<close>

fun headersLoop :: "string list \<Rightarrow> HTTPResponse \<Rightarrow> match_result option" where
  "headersLoop [] resp = None"
| "headersLoop (header # rest) resp =
     (let hs = Split header (CHR '':'') in
      if length hs \<noteq> 2 then Some (False, Some (ErrInvalidHeaderFormat header))
      else
        let hKey = hs ! 0; hVal = hs ! 1 in
        (case Header resp hKey of
           None \<Rightarrow> Some (False, None)
         | Some respHVal \<Rightarrow>
             if \<not> headerValueLoop respHVal hVal False then Some (False, None)
             else headersLoop rest resp))"

text \<open>Lines 127-147.\<close>

fun noHeadersLoop :: "string list \<Rightarrow> HTTPResponse \<Rightarrow> match_result option" where
  "noHeadersLoop [] resp = None"
| "noHeadersLoop (header # rest) resp =
     (let pNH = Split header (CHR '':'') in
      if length pNH \<noteq> 2 then Some (False, Some (ErrInvalidHeaderFormat header))
      else
        let nhKey = pNH ! 0; nhVal = pNH ! 1 in
        (case Header resp nhKey of
           Some respHeaderValues \<Rightarrow>
             if headerValueLoop respHeaderValues nhVal False then Some (False, None)
             else noHeadersLoop rest resp
         | None \<Rightarrow> noHeadersLoop rest resp))"

text \<open>The function from line 79 on: the stages after \<open>MustMatchAll\<close>.\<close>

definition matchFromOne :: "Check \<Rightarrow> HTTPResponse \<Rightarrow> match_result" where
  "matchFromOne check resp =
     (if \<not> matchOneLoop (MustMatchOne check) (Body resp) False then (False, None)
      else (case notMatchLoop (MustNotMatch check) (Body resp) of
        Some res \<Rightarrow> res
      | None \<Rightarrow> (case headersLoop (Headers check) resp of
          Some res \<Rightarrow> res
        | None \<Rightarrow> (case noHeadersLoop (NoHeaders check) resp of
            Some res \<Rightarrow> res
          | None \<Rightarrow> (True, None)))))"

definition Match :: "Check option \<Rightarrow> HTTPResponse option \<Rightarrow> match_result" where
  "Match check resp =
     (case check of
        None \<Rightarrow> (False, Some (ErrNilParameter ''check''))
      | Some c \<Rightarrow>
          (case Check.StatusCode c of
             None \<Rightarrow> (False, Some (ErrNilParameter ''check.StatusCode''))
           | Some code \<Rightarrow>
               (case resp of
                  None \<Rightarrow> (False, Some (ErrNilParameter ''resp''))
                | Some r \<Rightarrow>
                    if HTTPResponse.StatusCode r \<noteq> code then (False, None)
                    else (case matchAllLoop (MustMatchAll c) (Body r) of
                            Some res \<Rightarrow> res
                          | None \<Rightarrow> matchFromOne c r))))"

section \<open>ParseSignatures\<close>

text \<open>Lines 223-227: the first entry of \<open>Headers\<close> whose count of \<open>":"\<close> is not one.\<close>

fun checkHeadersLoop :: "string list \<Rightarrow> error option" where
  "checkHeadersLoop [] = None"
| "checkHeadersLoop (header # rest) =
     (if Count header (CHR '':'') \<noteq> 1 then Some (ErrInvalidHeaderFormat header)
      else checkHeadersLoop rest)"

text \<open>
  Lines 206-228: the loop over the checks of one plugin. The \<open>switch\<close> compares the
  empty string with the three fields from top to bottom. The severity classifier
  \<open>StringToSeverity\<close> is declared in another file of the package, so it is a parameter;
  the loop only looks at whether it returns an error.
\<close>

fun checksLoop :: "(string \<Rightarrow> error + 'sev) \<Rightarrow> Check list \<Rightarrow> error option" where
  "checksLoop StringToSeverity [] = None"
| "checksLoop StringToSeverity (check # rest) =
     (if [] = Description check then
        Some (ErrCheckInvalidField (Name check) ''description'')
      else if [] = Remediation check then
        Some (ErrCheckInvalidField (Name check) ''remediation'')
      else if [] = Severity check then
        Some (ErrCheckInvalidField (Name check) ''severity'')
      else (case StringToSeverity (Severity check) of
              Inl err \<Rightarrow> Some err
            | Inr _ \<Rightarrow>
                (case checkHeadersLoop (Headers check) of
                   Some err \<Rightarrow> Some err
                 | None \<Rightarrow> checksLoop StringToSeverity rest)))"

text \<open>Lines 204-229: the loop over the plugins.\<close>

fun pluginsLoop :: "(string \<Rightarrow> error + 'sev) \<Rightarrow> Plugin list \<Rightarrow> error option" where
  "pluginsLoop StringToSeverity [] = None"
| "pluginsLoop StringToSeverity (plugin # rest) =
     (case checksLoop StringToSeverity (Checks plugin) of
        Some err \<Rightarrow> Some err
      | None \<Rightarrow> pluginsLoop StringToSeverity rest)"

text \<open>
  The reader is the outcome of reading it to its end: an error or the bytes. The YAML
  decoder is a library, so it is a parameter too: it fails or yields the document.
\<close>

definition ParseSignatures ::
  "(string \<Rightarrow> error + Signatures) \<Rightarrow> (string \<Rightarrow> error + 'sev) \<Rightarrow> error + string
     \<Rightarrow> error + Signatures" where
  "ParseSignatures Unmarshal StringToSeverity r =
     (case r of
        Inl err \<Rightarrow> Inl err
      | Inr signData \<Rightarrow>
          (case Unmarshal signData of
             Inl err \<Rightarrow> Inl err
           | Inr sign \<Rightarrow>
               (case pluginsLoop StringToSeverity (Plugins sign) of
                  Some err \<Rightarrow> Inl err
                | None \<Rightarrow> Inr sign)))"

text \<open>
  Modelled from the spec: the severity classifier \<open>StringToSeverity\<close>, which is not in
  this file. The spec says it maps labels such as critical, high, medium, low and
  informational to an ordered rank and fails on any other label. It only instantiates
  the parameter of \<open>ParseSignatures\<close> at concrete documents.
\<close>

datatype severity = Informational | Low | Medium | High | Critical

definition StringToSeverity :: "string \<Rightarrow> error + severity" where
  "StringToSeverity label =
     (if label = ''critical'' then Inr Critical
      else if label = ''high'' then Inr High
      else if label = ''medium'' then Inr Medium
      else if label = ''low'' then Inr Low
      else if label = ''informational'' then Inr Informational
      else Inl (ErrForeign ''invalid severity''))"

section \<open>PrintSignatures\<close>

text \<open>
  The function fills a table and has a library render it. The model returns what the
  table is given: the header, the rows in the order they are appended, and the count of
  the footer. A row holds the plugin's endpoints and the check's name, severity and
  description. The counter \<open>cpt\<close> is a Go \<open>int\<close> that counts elements of slices held in
  memory, so it cannot wrap.
\<close>

type_synonym row = "string list \<times> string \<times> string \<times> string"

record Table =
  TableHeader :: "string list"
  TableRows :: "row list"
  TableTotal :: int

text \<open>Lines 241-246, with the rows appended so far and \<open>cpt\<close> as the state.\<close>

fun printChecksLoop :: "string \<Rightarrow> Plugin \<Rightarrow> Check list \<Rightarrow> row list \<times> int \<Rightarrow> row list \<times> int" where
  "printChecksLoop sevStr plugin [] st = st"
| "printChecksLoop sevStr plugin (check # rest) (rows, cpt) =
     (if sevStr = Severity check then
        printChecksLoop sevStr plugin rest
          (rows @ [(Endpoints plugin, Name check, Severity check, Description check)], cpt + 1)
      else printChecksLoop sevStr plugin rest (rows, cpt))"

text \<open>Lines 240-247.\<close>

fun printPluginsLoop :: "string \<Rightarrow> Plugin list \<Rightarrow> row list \<times> int \<Rightarrow> row list \<times> int" where
  "printPluginsLoop sevStr [] st = st"
| "printPluginsLoop sevStr (plugin # rest) st =
     printPluginsLoop sevStr rest (printChecksLoop sevStr plugin (Checks plugin) st)"

definition PrintSignatures :: "Signatures option \<Rightarrow> string \<Rightarrow> error + Table" where
  "PrintSignatures sign sevStr =
     (case sign of
        None \<Rightarrow> Inl NilDereference
      | Some s \<Rightarrow>
          (case printPluginsLoop sevStr (Plugins s) ([], 0) of
             (rows, cpt) \<Rightarrow>
               Inr \<lparr>TableHeader = [''Endpoint'', ''Check Name'', ''Severity'', ''Description''],
                    TableRows = rows, TableTotal = cpt\<rparr>))"

section \<open>The specification's vocabulary\<close>

text \<open>
  These definitions follow the words of the specification, not the code: they are what
  the code is compared with.
\<close>

text \<open>A byte-substring: the text occurs somewhere in the sequence, byte for byte.\<close>

definition byteSubstring :: "string \<Rightarrow> string \<Rightarrow> bool" where
  "byteSubstring sub b \<longleftrightarrow> (\<exists>p q. b = p @ sub @ q)"

text \<open>An entry has the format KEY:VALUE when it contains exactly one \<open>":"\<close>.\<close>

definition wellFormedHeader :: "string \<Rightarrow> bool" where
  "wellFormedHeader entry \<longleftrightarrow> count_list entry (CHR '':'') = 1"

text \<open>
  The response has the header of an entry KEY:VALUE: the key KEY is in the header map
  and at least one of its values contains VALUE.
\<close>

definition hasHeader :: "HTTPResponse \<Rightarrow> string \<Rightarrow> bool" where
  "hasHeader resp entry \<longleftrightarrow>
     (\<exists>key val vals. entry = key @ CHR '':'' # val \<and> Header resp key = Some vals \<and>
        (\<exists>x \<in> set vals. byteSubstring val x))"

text \<open>The three body stages and the two header stages of the match engine.\<close>

definition bodyStages :: "Check \<Rightarrow> HTTPResponse \<Rightarrow> bool" where
  "bodyStages check resp \<longleftrightarrow>
     (\<forall>m \<in> set (MustMatchAll check). byteSubstring m (Body resp)) \<and>
     (\<exists>m \<in> set (MustMatchOne check). byteSubstring m (Body resp)) \<and>
     (\<forall>m \<in> set (MustNotMatch check). \<not> byteSubstring m (Body resp))"

definition headerStages :: "Check \<Rightarrow> HTTPResponse \<Rightarrow> bool" where
  "headerStages check resp \<longleftrightarrow>
     (\<forall>entry \<in> set (Headers check). hasHeader resp entry) \<and>
     (\<forall>entry \<in> set (NoHeaders check). \<not> hasHeader resp entry)"

text \<open>All six stages, the status gate first.\<close>

definition sixStages :: "Check \<Rightarrow> int \<Rightarrow> HTTPResponse \<Rightarrow> bool" where
  "sixStages check code resp \<longleftrightarrow>
     HTTPResponse.StatusCode resp = code \<and> bodyStages check resp \<and> headerStages check resp"

text \<open>The checks of a document in document order, each with the plugin that owns it.\<close>

definition documentOrder :: "Signatures \<Rightarrow> (Plugin \<times> Check) list" where
  "documentOrder sign = concat (map (\<lambda>p. map (Pair p) (Checks p)) (Plugins sign))"

definition allChecks :: "Signatures \<Rightarrow> Check list" where
  "allChecks sign = concat (map Checks (Plugins sign))"

text \<open>The row reported for a check.\<close>

definition rowOf :: "Plugin \<times> Check \<Rightarrow> row" where
  "rowOf pc = (Endpoints (fst pc), Name (snd pc), Severity (snd pc), Description (snd pc))"

text \<open>
  The metadata of a check passes the loader: the three fields are not empty and the
  classifier accepts the severity.
\<close>

definition metadataValid :: "(string \<Rightarrow> error + 'sev) \<Rightarrow> Check \<Rightarrow> bool" where
  "metadataValid classify check \<longleftrightarrow>
     Description check \<noteq> [] \<and> Remediation check \<noteq> [] \<and> Severity check \<noteq> [] \<and>
     (\<exists>rank. classify (Severity check) = Inr rank)"

text \<open>A check passes the loader: its metadata does and every \<open>headers\<close> entry is well formed.\<close>

definition checkValid :: "(string \<Rightarrow> error + 'sev) \<Rightarrow> Check \<Rightarrow> bool" where
  "checkValid classify check \<longleftrightarrow>
     metadataValid classify check \<and> (\<forall>entry \<in> set (Headers check). wellFormedHeader entry)"

section \<open>Concrete checks, responses and documents\<close>

text \<open>
  The check and the response of the end-to-end scenario. The check sets the status code,
  \<open>all_match\<close>, \<open>headers\<close> and the three metadata fields; every other field has Go's
  zero value. The response is given its body.
\<close>

definition wordpressCheck :: Check where
  "wordpressCheck =
     \<lparr>MustMatchOne = [], MustMatchAll = [''WordPress''], MustNotMatch = [],
      StatusCode = Some 200, Name = [], Remediation = ''r'', Severity = ''high'',
      Description = ''d'', Headers = [''X-Powered-By:PHP''], NoHeaders = []\<rparr>"

definition wordpressResponse :: "string \<Rightarrow> HTTPResponse" where
  "wordpressResponse body =
     \<lparr>HTTPResponse.StatusCode = 200, Body = body,
      Header = [''X-Powered-By'' \<mapsto> [''PHP/7.4'']]\<rparr>"

definition wordpressBody :: string where
  "wordpressBody = ''...WordPress 5.0...''"

text \<open>A check whose only \<open>headers\<close> entry has no colon, and a response with another status.\<close>

definition malformedCheck :: Check where
  "malformedCheck =
     \<lparr>MustMatchOne = [''a''], MustMatchAll = [], MustNotMatch = [],
      StatusCode = Some 200, Name = ''bad'', Remediation = ''r'', Severity = ''high'',
      Description = ''d'', Headers = [''X-Foo''], NoHeaders = []\<rparr>"

definition notFoundResponse :: HTTPResponse where
  "notFoundResponse = \<lparr>HTTPResponse.StatusCode = 404, Body = ''a'', Header = Map.empty\<rparr>"

text \<open>A check with a well-formed and a malformed \<open>headers\<close> entry, and a response for it.\<close>

definition twoHeadersCheck :: Check where
  "twoHeadersCheck =
     \<lparr>MustMatchOne = [''a''], MustMatchAll = [], MustNotMatch = [''z''],
      StatusCode = Some 200, Name = ''two'', Remediation = ''r'', Severity = ''low'',
      Description = ''d'', Headers = [''Server:nginx'', ''X-Foo''], NoHeaders = []\<rparr>"

definition nginxResponse :: HTTPResponse where
  "nginxResponse =
     \<lparr>HTTPResponse.StatusCode = 200, Body = ''abc'', Header = [''Server'' \<mapsto> [''nginx/1.2'']]\<rparr>"

text \<open>The same with the malformed entry in \<open>noHeaders\<close>, after a well-formed one.\<close>

definition twoNoHeadersCheck :: Check where
  "twoNoHeadersCheck =
     twoHeadersCheck\<lparr>Headers := [''Server:nginx''], NoHeaders := [''Server:Apache'', ''X:Y:Z'']\<rparr>"

text \<open>
  The malformed \<open>headers\<close> entry after an entry the response does not satisfy: the
  evaluation ends before it reads the malformed one.
\<close>

definition apacheFirstCheck :: Check where
  "apacheFirstCheck = twoHeadersCheck\<lparr>Headers := [''Server:Apache'', ''X-Foo'']\<rparr>"

text \<open>
  Documents as the decoder yields them. \<open>validCheck\<close> passes the loader;
  \<open>noSeverityCheck\<close> has an empty severity; \<open>noDescriptionCheck\<close> has an empty
  description and a \<open>headers\<close> entry without a colon; \<open>badNoHeadersCheck\<close> is valid but
  for a \<open>no_headers\<close> entry without a colon.
\<close>

definition validCheck :: Check where
  "validCheck =
     \<lparr>MustMatchOne = [''a''], MustMatchAll = [], MustNotMatch = [],
      StatusCode = Some 200, Name = ''ok'', Remediation = ''r'', Severity = ''high'',
      Description = ''d'', Headers = [''Server:nginx''], NoHeaders = []\<rparr>"

definition noSeverityCheck :: Check where
  "noSeverityCheck = validCheck\<lparr>Name := ''nosev'', Severity := []\<rparr>"

definition noDescriptionCheck :: Check where
  "noDescriptionCheck = validCheck\<lparr>Name := ''nodesc'', Description := [], Headers := [''X-Foo'']\<rparr>"


definition documentOf :: "Check list \<Rightarrow> Signatures" where
  "documentOf checks =
     \<lparr>Plugins = [\<lparr>Endpoints = [''/''], Checks = checks, FollowRedirects = False\<rparr>]\<rparr>"

text \<open>A decoder that yields the given document for every input.\<close>

definition decodeAs :: "Signatures \<Rightarrow> string \<Rightarrow> error + Signatures" where
  "decodeAs sign signData = Inr sign"

text \<open>A document of two plugins, for the report.\<close>

definition reportDocument :: Signatures where
  "reportDocument =
     \<lparr>Plugins =
        [\<lparr>Endpoints = [''/a''], Checks = [validCheck, twoHeadersCheck], FollowRedirects = False\<rparr>,
         \<lparr>Endpoints = [''/b''], Checks = [malformedCheck], FollowRedirects = True\<rparr>]\<rparr>"


section \<open>The library functions meet their descriptions\<close>



lemma HasPrefix_iff: "HasPrefix s p \<longleftrightarrow> (\<exists>q. s = p @ q)"
  by (induction s p rule: HasPrefix.induct) auto

lemma Contains_iff: "Contains b sub \<longleftrightarrow> (\<exists>p q. b = p @ sub @ q)"
proof (induction b)
  case Nil
  then show ?case by auto
next
  case (Cons c cs)
  show ?case
  proof
    assume "Contains (c # cs) sub"
    then consider "HasPrefix (c # cs) sub" | "Contains cs sub" by auto
    then show "\<exists>p q. c # cs = p @ sub @ q"
    proof cases
      case 1
      then obtain q where "c # cs = sub @ q" by (auto simp: HasPrefix_iff)
      then have "c # cs = [] @ sub @ q" by simp
      then show ?thesis by blast
    next
      case 2
      then obtain p q where "cs = p @ sub @ q" using Cons.IH by auto
      then have "c # cs = (c # p) @ sub @ q" by simp
      then show ?thesis by blast
    qed
  next
    assume "\<exists>p q. c # cs = p @ sub @ q"
    then obtain p q where pq: "c # cs = p @ sub @ q" by auto
    show "Contains (c # cs) sub"
    proof (cases p)
      case Nil
      with pq have "HasPrefix (c # cs) sub" by (auto simp: HasPrefix_iff)
      then show ?thesis by simp
    next
      case (Cons a p')
      with pq have "cs = p' @ sub @ q" by simp
      then have "Contains cs sub" using Cons.IH by blast
      then show ?thesis by simp
    qed
  qed
qed

lemma Count_count_list: "Count s sep = count_list s sep"
  by (induction s) auto

lemma Split_not_Nil: "Split s sep \<noteq> []"
  by (induction s) (auto split: list.splits)

lemma length_Split: "length (Split s sep) = Suc (Count s sep)"
  by (induction s) (auto split: list.splits simp: Split_not_Nil)

lemma Split_no_sep: "sep \<notin> set s \<Longrightarrow> Split s sep = [s]"
  by (induction s) auto

lemma Split_append: "sep \<notin> set k \<Longrightarrow> Split (k @ sep # v) sep = k # Split v sep"
  by (induction k) auto

lemma count_list_0: "count_list s x = 0 \<longleftrightarrow> x \<notin> set s"
  by (induction s) auto

lemma Split_one_sep:
  assumes "count_list (k @ sep # v) sep = 1"
  shows "Split (k @ sep # v) sep = [k, v]"
proof -
  from assms have "count_list k sep = 0" "count_list v sep = 0" by auto
  then have "sep \<notin> set k" "sep \<notin> set v" by (simp_all add: count_list_0)
  then show ?thesis by (simp add: Split_append Split_no_sep)
qed

lemma one_sep_decomp:
  assumes "count_list h sep = 1"
  shows "\<exists>k v. h = k @ sep # v"
proof -
  from assms have "sep \<in> set h" using count_list_0[of h sep] by auto
  then show ?thesis by (auto simp: in_set_conv_decomp)
qed

section \<open>The loops of Match\<close>

lemma Contains_byteSubstring: "Contains b sub \<longleftrightarrow> byteSubstring sub b"
  by (simp add: Contains_iff byteSubstring_def)

lemma matchAllLoop_eq:
  "matchAllLoop ms body =
     (if \<forall>m \<in> set ms. byteSubstring m body then None else Some (False, None))"
  by (induction ms) (simp_all add: Contains_byteSubstring)

lemma matchOneLoop_eq:
  "matchOneLoop ms body found \<longleftrightarrow> found \<or> (\<exists>m \<in> set ms. byteSubstring m body)"
  by (induction ms) (auto simp: Contains_byteSubstring)

lemma notMatchLoop_eq:
  "notMatchLoop ms body =
     (if \<forall>m \<in> set ms. \<not> byteSubstring m body then None else Some (False, None))"
  by (induction ms) (simp_all add: Contains_byteSubstring)

lemma headerValueLoop_eq:
  "headerValueLoop vs hVal found \<longleftrightarrow> found \<or> (\<exists>x \<in> set vs. byteSubstring hVal x)"
  by (induction vs) (auto simp: Contains_byteSubstring)

lemma length_Split_wellFormed:
  "length (Split h (CHR '':'')) = 2 \<longleftrightarrow> wellFormedHeader h"
  by (auto simp: length_Split Count_count_list wellFormedHeader_def)

lemma hasHeader_Split:
  assumes wf: "wellFormedHeader h"
  shows "hasHeader resp h \<longleftrightarrow>
    (case Header resp (Split h (CHR '':'') ! 0) of
       None \<Rightarrow> False
     | Some vals \<Rightarrow> headerValueLoop vals (Split h (CHR '':'') ! 1) False)"
proof -
  from wf obtain k v where h: "h = k @ CHR '':'' # v"
    using one_sep_decomp[of h "CHR '':''"] by (auto simp: wellFormedHeader_def)
  with wf have sp: "Split h (CHR '':'') = [k, v]"
    using Split_one_sep[of k "CHR '':''" v] by (simp add: wellFormedHeader_def)
  have uniq: "key = k \<and> val = v" if "h = key @ CHR '':'' # val" for key val
  proof -
    from that wf have "Split h (CHR '':'') = [key, val]"
      using Split_one_sep[of key "CHR '':''" val] by (simp add: wellFormedHeader_def)
    with sp show ?thesis by simp
  qed
  have "hasHeader resp h \<longleftrightarrow>
      (\<exists>vals. Header resp k = Some vals \<and> (\<exists>x \<in> set vals. byteSubstring v x))"
    unfolding hasHeader_def using h uniq by blast
  then show ?thesis
    by (simp add: sp headerValueLoop_eq split: option.split)
qed

lemma headersLoop_step:
  "headersLoop (h # rest) resp =
     (if \<not> wellFormedHeader h then Some (False, Some (ErrInvalidHeaderFormat h))
      else if \<not> hasHeader resp h then Some (False, None)
      else headersLoop rest resp)"
proof (cases "wellFormedHeader h")
  case True
  then have "length (Split h (CHR '':'')) = 2" by (simp add: length_Split_wellFormed)
  then show ?thesis
    using True by (simp add: hasHeader_Split Let_def split: option.split)
next
  case False
  then have "length (Split h (CHR '':'')) \<noteq> 2" by (simp add: length_Split_wellFormed)
  then show ?thesis using False by (simp add: Let_def)
qed

lemma noHeadersLoop_step:
  "noHeadersLoop (h # rest) resp =
     (if \<not> wellFormedHeader h then Some (False, Some (ErrInvalidHeaderFormat h))
      else if hasHeader resp h then Some (False, None)
      else noHeadersLoop rest resp)"
proof (cases "wellFormedHeader h")
  case True
  then have "length (Split h (CHR '':'')) = 2" by (simp add: length_Split_wellFormed)
  then show ?thesis
    using True by (simp add: hasHeader_Split Let_def split: option.split)
next
  case False
  then have "length (Split h (CHR '':'')) \<noteq> 2" by (simp add: length_Split_wellFormed)
  then show ?thesis using False by (simp add: Let_def)
qed

lemma headersLoop_wellFormed:
  "\<forall>h \<in> set hs. wellFormedHeader h \<Longrightarrow>
   headersLoop hs resp = (if \<forall>h \<in> set hs. hasHeader resp h then None else Some (False, None))"
  by (induction hs) (simp_all add: headersLoop_step del: headersLoop.simps(2))

lemma noHeadersLoop_wellFormed:
  "\<forall>h \<in> set hs. wellFormedHeader h \<Longrightarrow>
   noHeadersLoop hs resp =
     (if \<forall>h \<in> set hs. \<not> hasHeader resp h then None else Some (False, None))"
  by (induction hs) (simp_all add: noHeadersLoop_step del: noHeadersLoop.simps(2))

lemma headersLoop_prefix:
  "\<forall>e \<in> set pre. wellFormedHeader e \<and> hasHeader resp e \<Longrightarrow>
   headersLoop (pre @ rest) resp = headersLoop rest resp"
  by (induction pre) (simp_all add: headersLoop_step del: headersLoop.simps(2))

lemma noHeadersLoop_prefix:
  "\<forall>e \<in> set pre. wellFormedHeader e \<and> \<not> hasHeader resp e \<Longrightarrow>
   noHeadersLoop (pre @ rest) resp = noHeadersLoop rest resp"
  by (induction pre) (simp_all add: noHeadersLoop_step del: noHeadersLoop.simps(2))

lemma Match_gate:
  "Check.StatusCode c = Some code \<Longrightarrow>
   Match (Some c) (Some r) =
     (if HTTPResponse.StatusCode r \<noteq> code then (False, None)
      else if \<not> (\<forall>m \<in> set (MustMatchAll c). byteSubstring m (Body r)) then (False, None)
      else matchFromOne c r)"
  by (simp add: Match_def matchAllLoop_eq)

lemma headersLoop_None:
  "headersLoop hs resp = None \<longleftrightarrow> (\<forall>e \<in> set hs. wellFormedHeader e \<and> hasHeader resp e)"
  by (induction hs) (auto simp: headersLoop_step simp del: headersLoop.simps(2))

lemma noHeadersLoop_None:
  "noHeadersLoop hs resp = None \<longleftrightarrow>
     (\<forall>e \<in> set hs. wellFormedHeader e \<and> \<not> hasHeader resp e)"
  by (induction hs) (auto simp: noHeadersLoop_step simp del: noHeadersLoop.simps(2))

text \<open>
  An entry of a list is reached when it is malformed and every entry before it is well
  formed and passes. The head of the list decides how the tail is looked at.
\<close>

lemma reached_Cons:
  "(\<exists>pre post. h # hs = pre @ entry # post \<and>
      (\<forall>e \<in> set pre. wellFormedHeader e \<and> P e) \<and> \<not> wellFormedHeader entry) \<longleftrightarrow>
   (if \<not> wellFormedHeader h then entry = h
    else P h \<and> (\<exists>pre post. hs = pre @ entry # post \<and>
      (\<forall>e \<in> set pre. wellFormedHeader e \<and> P e) \<and> \<not> wellFormedHeader entry))"
  (is "?L \<longleftrightarrow> ?R")
proof
  assume ?L
  then obtain pre post where d: "h # hs = pre @ entry # post"
    and p: "\<forall>e \<in> set pre. wellFormedHeader e \<and> P e"
    and w: "\<not> wellFormedHeader entry" by blast
  show ?R
  proof (cases pre)
    case Nil
    with d w show ?thesis by simp
  next
    case (Cons a pre')
    with d p have "wellFormedHeader h" "P h" "hs = pre' @ entry # post"
      "\<forall>e \<in> set pre'. wellFormedHeader e \<and> P e" by simp_all
    with w show ?thesis by auto
  qed
next
  assume r: ?R
  show ?L
  proof (cases "wellFormedHeader h")
    case False
    with r have "h # hs = [] @ entry # hs \<and>
        (\<forall>e \<in> set []. wellFormedHeader e \<and> P e) \<and> \<not> wellFormedHeader entry" by simp
    then show ?thesis by blast
  next
    case True
    with r obtain pre post where "P h" "hs = pre @ entry # post"
      "\<forall>e \<in> set pre. wellFormedHeader e \<and> P e" "\<not> wellFormedHeader entry" by auto
    with True have "h # hs = (h # pre) @ entry # post \<and>
        (\<forall>e \<in> set (h # pre). wellFormedHeader e \<and> P e) \<and> \<not> wellFormedHeader entry" by simp
    then show ?thesis by blast
  qed
qed

lemma headersLoop_error:
  "headersLoop hs resp = Some (verdict, Some err) \<longleftrightarrow>
     verdict = False \<and>
     (\<exists>entry. err = ErrInvalidHeaderFormat entry \<and>
        (\<exists>pre post. hs = pre @ entry # post \<and>
           (\<forall>e \<in> set pre. wellFormedHeader e \<and> hasHeader resp e) \<and>
           \<not> wellFormedHeader entry))"
proof (induction hs)
  case Nil
  show ?case by simp
next
  case (Cons h hs)
  show ?case
    unfolding reached_Cons[of h hs _ "hasHeader resp"] using Cons.IH
    by (auto simp: headersLoop_step simp del: headersLoop.simps(2))
qed

lemma noHeadersLoop_error:
  "noHeadersLoop hs resp = Some (verdict, Some err) \<longleftrightarrow>
     verdict = False \<and>
     (\<exists>entry. err = ErrInvalidHeaderFormat entry \<and>
        (\<exists>pre post. hs = pre @ entry # post \<and>
           (\<forall>e \<in> set pre. wellFormedHeader e \<and> \<not> hasHeader resp e) \<and>
           \<not> wellFormedHeader entry))"
proof (induction hs)
  case Nil
  show ?case by simp
next
  case (Cons h hs)
  show ?case
    unfolding reached_Cons[of h hs _ "\<lambda>e. \<not> hasHeader resp e"] using Cons.IH
    by (auto simp: noHeadersLoop_step simp del: noHeadersLoop.simps(2))
qed

lemma Match_error:
  assumes "Check.StatusCode c = Some code"
  shows "Match (Some c) (Some r) = (verdict, Some err) \<longleftrightarrow>
     HTTPResponse.StatusCode r = code \<and> bodyStages c r \<and>
     (headersLoop (Headers c) r = Some (verdict, Some err) \<or>
      headersLoop (Headers c) r = None \<and> noHeadersLoop (NoHeaders c) r = Some (verdict, Some err))"
  using assms
  by (auto simp: Match_gate matchFromOne_def bodyStages_def matchOneLoop_eq notMatchLoop_eq
      split: option.splits)

section \<open>Claims about Check.Match\<close>

lemma matchFromOne_wellFormed:
  assumes "\<forall>entry \<in> set (Headers c) \<union> set (NoHeaders c). wellFormedHeader entry"
  shows "matchFromOne c r =
    ((\<exists>m \<in> set (MustMatchOne c). byteSubstring m (Body r)) \<and>
     (\<forall>m \<in> set (MustNotMatch c). \<not> byteSubstring m (Body r)) \<and>
     headerStages c r, None)"
proof -
  from assms have h: "\<forall>e \<in> set (Headers c). wellFormedHeader e"
    and n: "\<forall>e \<in> set (NoHeaders c). wellFormedHeader e" by auto
  show ?thesis
    unfolding matchFromOne_def headerStages_def
    by (simp add: matchOneLoop_eq notMatchLoop_eq headersLoop_wellFormed[OF h]
        noHeadersLoop_wellFormed[OF n])
qed

lemma Match_wellFormed:
  assumes "Check.StatusCode c = Some code"
    and "\<forall>entry \<in> set (Headers c) \<union> set (NoHeaders c). wellFormedHeader entry"
  shows "Match (Some c) (Some r) = (sixStages c code r, None)"
  using assms(1) matchFromOne_wellFormed[OF assms(2), of r]
  by (auto simp: Match_gate sixStages_def bodyStages_def)

text \<open>
  C1. For a check with a status code whose \<open>headers\<close> and \<open>noHeaders\<close> entries each
  contain exactly one colon, and any response, \<open>Match\<close> never returns an error, and its
  verdict is true exactly when all six stages hold: the status codes are equal, every
  string of \<open>mustMatchAll\<close> is a byte-substring of the body, some string of
  \<open>mustMatchOne\<close> is, no string of \<open>mustNotMatch\<close> is, the response has the header of
  every \<open>headers\<close> entry and of no \<open>noHeaders\<close> entry.
\<close>

theorem Match_six_stages:
  assumes "Check.StatusCode c = Some code"
    and "\<forall>entry \<in> set (Headers c) \<union> set (NoHeaders c). wellFormedHeader entry"
  shows "Match (Some c) (Some r) = (sixStages c code r, None)"
  using assms by (rule Match_wellFormed)

theorem Match_six_stages_witness:
  "Check.StatusCode (wordpressCheck\<lparr>MustMatchOne := [''Press'']\<rparr>) = Some 200 \<and>
   Headers (wordpressCheck\<lparr>MustMatchOne := [''Press'']\<rparr>) = [''X-Powered-By:PHP''] \<and>
   NoHeaders (wordpressCheck\<lparr>MustMatchOne := [''Press'']\<rparr>) = [] \<and>
   wellFormedHeader ''X-Powered-By:PHP'' \<and>
   sixStages (wordpressCheck\<lparr>MustMatchOne := [''Press'']\<rparr>) 200
     (wordpressResponse wordpressBody) \<and>
   \<not> sixStages (wordpressCheck\<lparr>MustMatchOne := [''Press'']\<rparr>) 200
     (wordpressResponse ''...Drupal 9...'')"
proof -
  let ?c = "wordpressCheck\<lparr>MustMatchOne := [''Press'']\<rparr>"
  have sc: "Check.StatusCode ?c = Some 200"
    by (simp add: wordpressCheck_def)
  have hs: "Headers ?c = [''X-Powered-By:PHP'']" and ns: "NoHeaders ?c = []"
    by (simp_all add: wordpressCheck_def)
  have w: "wellFormedHeader ''X-Powered-By:PHP''"
    by (simp add: wellFormedHeader_def)
  have wf: "\<forall>entry \<in> set (Headers ?c) \<union> set (NoHeaders ?c). wellFormedHeader entry"
    using w by (simp add: hs ns)
  have yes: "Match (Some ?c) (Some (wordpressResponse wordpressBody)) = (True, None)"
    by (simp add: Match_def matchFromOne_def wordpressCheck_def wordpressResponse_def
        wordpressBody_def)
  have no: "Match (Some ?c) (Some (wordpressResponse ''...Drupal 9...'')) = (False, None)"
    by (simp add: Match_def matchFromOne_def wordpressCheck_def wordpressResponse_def)
  from yes no Match_six_stages[OF sc wf] sc hs ns w show ?thesis by simp
qed

text \<open>
  C2, as the specification states it, fails: the check of the scenario sets no
  \<open>mustMatchOne\<close> string, so the OR stage ends the match.
\<close>

theorem wordpress_scenario_counterexample:
  "Match (Some wordpressCheck) (Some (wordpressResponse wordpressBody)) \<noteq> (True, None)"
  by (simp add: Match_def matchFromOne_def wordpressCheck_def wordpressResponse_def
      wordpressBody_def)

text \<open>
  C2, amended. For every body that contains \<open>WordPress\<close>, the check of the scenario
  against the response of the scenario returns \<open>(false, nil)\<close>. The same check with a
  \<open>mustMatchOne\<close> list returns \<open>(true, nil)\<close> exactly when one string of that list is
  a byte-substring of the body, and \<open>(false, nil)\<close> otherwise.
\<close>

theorem wordpress_scenario_amended:
  assumes "byteSubstring ''WordPress'' body"
  shows "Match (Some wordpressCheck) (Some (wordpressResponse body)) = (False, None) \<and>
    Match (Some (wordpressCheck\<lparr>MustMatchOne := ones\<rparr>)) (Some (wordpressResponse body)) =
      (\<exists>m \<in> set ones. byteSubstring m body, None)"
proof -
  have has: "hasHeader (wordpressResponse body) ''X-Powered-By:PHP''"
  proof -
    have "''PHP/7.4'' = [] @ ''PHP'' @ ''/7.4''" by simp
    then have "byteSubstring ''PHP'' ''PHP/7.4''"
      unfolding byteSubstring_def by blast
    moreover have "''X-Powered-By:PHP'' = ''X-Powered-By'' @ CHR '':'' # ''PHP''" by simp
    moreover have "Header (wordpressResponse body) ''X-Powered-By'' = Some [''PHP/7.4'']"
      by (simp add: wordpressResponse_def)
    ultimately show ?thesis unfolding hasHeader_def by fastforce
  qed
  have six: "sixStages (wordpressCheck\<lparr>MustMatchOne := xs\<rparr>) 200 (wordpressResponse body)
      \<longleftrightarrow> (\<exists>m \<in> set xs. byteSubstring m body)" for xs
    using assms has
    by (simp add: sixStages_def bodyStages_def headerStages_def wordpressCheck_def
        wordpressResponse_def)
  have m: "Match (Some (wordpressCheck\<lparr>MustMatchOne := xs\<rparr>)) (Some (wordpressResponse body)) =
      (\<exists>m \<in> set xs. byteSubstring m body, None)" for xs
  proof -
    have "Match (Some (wordpressCheck\<lparr>MustMatchOne := xs\<rparr>)) (Some (wordpressResponse body)) =
      (sixStages (wordpressCheck\<lparr>MustMatchOne := xs\<rparr>) 200 (wordpressResponse body), None)"
      by (rule Match_wellFormed) (simp_all add: wordpressCheck_def wellFormedHeader_def)
    then show ?thesis by (simp add: six)
  qed
  have "wordpressCheck\<lparr>MustMatchOne := []\<rparr> = wordpressCheck"
    by (simp add: wordpressCheck_def)
  with m[of "[]"] m[of ones] show ?thesis by simp
qed

theorem wordpress_scenario_amended_witness:
  "byteSubstring ''WordPress'' wordpressBody \<and>
   Match (Some wordpressCheck) (Some (wordpressResponse wordpressBody)) = (False, None) \<and>
   Match (Some (wordpressCheck\<lparr>MustMatchOne := [''WordPress'']\<rparr>))
     (Some (wordpressResponse wordpressBody)) = (True, None)"
proof -
  have "Contains wordpressBody ''WordPress''"
    by (simp add: wordpressBody_def)
  then have sub: "byteSubstring ''WordPress'' wordpressBody"
    by (simp add: Contains_byteSubstring)
  from wordpress_scenario_amended[OF sub, of "[''WordPress'']"] sub
  show ?thesis by simp
qed

text \<open>
  C4. For a check with a status code and an empty \<open>mustMatchOne\<close> list, and a response
  with that status code whose body contains every \<open>mustMatchAll\<close> string, \<open>Match\<close>
  returns \<open>(false, nil)\<close>, whatever the body and the other fields are.
\<close>

theorem Match_empty_MustMatchOne:
  assumes "MustMatchOne c = []"
    and "Check.StatusCode c = Some (HTTPResponse.StatusCode r)"
    and "\<forall>m \<in> set (MustMatchAll c). byteSubstring m (Body r)"
  shows "Match (Some c) (Some r) = (False, None)"
  using assms by (simp add: Match_gate matchFromOne_def)

theorem Match_empty_MustMatchOne_witness:
  "MustMatchOne wordpressCheck = [] \<and>
   Check.StatusCode wordpressCheck = Some (HTTPResponse.StatusCode (wordpressResponse wordpressBody)) \<and>
   MustMatchAll wordpressCheck = [''WordPress''] \<and>
   byteSubstring ''WordPress'' (Body (wordpressResponse wordpressBody)) \<and>
   Match (Some wordpressCheck) (Some (wordpressResponse wordpressBody)) = (False, None)"
proof -
  have one: "MustMatchOne wordpressCheck = []"
    by (simp add: wordpressCheck_def)
  have ma: "MustMatchAll wordpressCheck = [''WordPress'']"
    by (simp add: wordpressCheck_def)
  have sc: "Check.StatusCode wordpressCheck =
      Some (HTTPResponse.StatusCode (wordpressResponse wordpressBody))"
    by (simp add: wordpressCheck_def wordpressResponse_def)
  have "Contains wordpressBody ''WordPress''"
    by (simp add: wordpressBody_def)
  then have sub: "byteSubstring ''WordPress'' (Body (wordpressResponse wordpressBody))"
    by (simp add: Contains_byteSubstring wordpressResponse_def)
  then have al: "\<forall>m \<in> set (MustMatchAll wordpressCheck).
      byteSubstring m (Body (wordpressResponse wordpressBody))"
    by (simp add: ma)
  from Match_empty_MustMatchOne[OF one sc al] one sc ma sub show ?thesis by blast
qed

text \<open>
  C5. \<open>Match\<close> tests its nil preconditions in order: a nil check gives
  \<open>NilParameterError{"check"}\<close>; a check with a nil status code gives
  \<open>NilParameterError{"check.StatusCode"}\<close> for every response, the nil one too; a check
  with a status code and a nil response gives \<open>NilParameterError{"resp"}\<close>. The verdict
  is false each time.
\<close>

theorem Match_nil_parameters:
  "Match None resp = (False, Some (ErrNilParameter ''check'')) \<and>
   (Check.StatusCode c = None \<longrightarrow>
      Match (Some c) resp = (False, Some (ErrNilParameter ''check.StatusCode''))) \<and>
   (Check.StatusCode c \<noteq> None \<longrightarrow>
      Match (Some c) None = (False, Some (ErrNilParameter ''resp'')))"
  by (auto simp: Match_def split: option.split)

theorem Match_nil_parameters_witness:
  "Match None (None :: HTTPResponse option) = (False, Some (ErrNilParameter ''check'')) \<and>
   Check.StatusCode (wordpressCheck\<lparr>Check.StatusCode := None\<rparr>) = None \<and>
   Match (Some (wordpressCheck\<lparr>Check.StatusCode := None\<rparr>)) None =
     (False, Some (ErrNilParameter ''check.StatusCode'')) \<and>
   Match (Some (wordpressCheck\<lparr>Check.StatusCode := None\<rparr>)) (Some (wordpressResponse wordpressBody)) =
     (False, Some (ErrNilParameter ''check.StatusCode'')) \<and>
   Check.StatusCode wordpressCheck \<noteq> None \<and>
   Match (Some wordpressCheck) None = (False, Some (ErrNilParameter ''resp''))"
proof -
  have n: "Check.StatusCode (wordpressCheck\<lparr>Check.StatusCode := None\<rparr>) = None"
    by simp
  have s: "Check.StatusCode wordpressCheck \<noteq> None"
    by (simp add: wordpressCheck_def)
  from n s
    Match_nil_parameters[of None "wordpressCheck\<lparr>Check.StatusCode := None\<rparr>"]
    Match_nil_parameters[of "Some (wordpressResponse wordpressBody)"
      "wordpressCheck\<lparr>Check.StatusCode := None\<rparr>"]
    Match_nil_parameters[of None wordpressCheck]
  show ?thesis by blast
qed

text \<open>
  C6, as the specification states it, fails: a malformed \<open>headers\<close> entry is only
  reported when the evaluation reaches it. Here the status codes differ, and the
  result is a plain non-match.
\<close>

theorem Match_malformed_counterexample:
  "Match (Some malformedCheck) (Some notFoundResponse) = (False, None)"
  by (simp add: Match_def malformedCheck_def notFoundResponse_def)

text \<open>
  C6, amended. Take a check with a status code and a response. \<open>Match\<close> returns an
  error exactly when the evaluation reaches a malformed entry, and then the result is
  \<open>(false, InvalidHeaderFormatError)\<close> with that entry. The entry is reached when the
  response has the check's status code, its body passes the three body stages, and
  either the entry is in the \<open>headers\<close> list and every entry before it is well formed
  and is a header of the response, or every \<open>headers\<close> entry is well formed and is a
  header of the response, the entry is in the \<open>noHeaders\<close> list, and every entry
  before it there is well formed and is not a header of the response. A malformed
  entry that the evaluation does not reach is not reported.
\<close>

theorem Match_malformed_reached:
  assumes "Check.StatusCode c = Some code"
  shows "Match (Some c) (Some r) = (verdict, Some err) \<longleftrightarrow>
     verdict = False \<and> HTTPResponse.StatusCode r = code \<and> bodyStages c r \<and>
     (\<exists>entry. err = ErrInvalidHeaderFormat entry \<and> \<not> wellFormedHeader entry \<and>
        ((\<exists>pre post. Headers c = pre @ entry # post \<and>
            (\<forall>e \<in> set pre. wellFormedHeader e \<and> hasHeader r e)) \<or>
         (\<forall>e \<in> set (Headers c). wellFormedHeader e \<and> hasHeader r e) \<and>
         (\<exists>pre post. NoHeaders c = pre @ entry # post \<and>
            (\<forall>e \<in> set pre. wellFormedHeader e \<and> \<not> hasHeader r e))))"
  unfolding Match_error[OF assms] headersLoop_error noHeadersLoop_error headersLoop_None
  by blast

theorem Match_malformed_reached_witness:
  "Check.StatusCode twoHeadersCheck = Some 200 \<and>
   HTTPResponse.StatusCode nginxResponse = 200 \<and>
   bodyStages twoHeadersCheck nginxResponse \<and>
   \<not> wellFormedHeader ''X-Foo'' \<and>
   Headers twoHeadersCheck = [''Server:nginx''] @ ''X-Foo'' # [] \<and>
   wellFormedHeader ''Server:nginx'' \<and> hasHeader nginxResponse ''Server:nginx'' \<and>
   Match (Some twoHeadersCheck) (Some nginxResponse) =
     (False, Some (ErrInvalidHeaderFormat ''X-Foo'')) \<and>
   Check.StatusCode twoNoHeadersCheck = Some 200 \<and>
   bodyStages twoNoHeadersCheck nginxResponse \<and>
   \<not> wellFormedHeader ''X:Y:Z'' \<and>
   Headers twoNoHeadersCheck = [''Server:nginx''] \<and>
   NoHeaders twoNoHeadersCheck = [''Server:Apache''] @ ''X:Y:Z'' # [] \<and>
   wellFormedHeader ''Server:Apache'' \<and> \<not> hasHeader nginxResponse ''Server:Apache'' \<and>
   Match (Some twoNoHeadersCheck) (Some nginxResponse) =
     (False, Some (ErrInvalidHeaderFormat ''X:Y:Z'')) \<and>
   Check.StatusCode apacheFirstCheck = Some 200 \<and>
   Headers apacheFirstCheck = [''Server:Apache'', ''X-Foo''] \<and>
   Match (Some apacheFirstCheck) (Some nginxResponse) \<noteq>
     (False, Some (ErrInvalidHeaderFormat ''X-Foo'')) \<and>
   Match (Some apacheFirstCheck) (Some nginxResponse) = (False, None)"
proof -
  have sc1: "Check.StatusCode twoHeadersCheck = Some 200"
    by (simp add: twoHeadersCheck_def)
  have sc2: "Check.StatusCode twoNoHeadersCheck = Some 200"
    by (simp add: twoNoHeadersCheck_def twoHeadersCheck_def)
  have sc3: "Check.StatusCode apacheFirstCheck = Some 200"
    by (simp add: apacheFirstCheck_def twoHeadersCheck_def)
  have sr: "HTTPResponse.StatusCode nginxResponse = 200"
    by (simp add: nginxResponse_def)
  have b1: "bodyStages twoHeadersCheck nginxResponse"
    by (simp add: bodyStages_def Contains_byteSubstring[symmetric] twoHeadersCheck_def
        nginxResponse_def)
  have b2: "bodyStages twoNoHeadersCheck nginxResponse"
    by (simp add: bodyStages_def Contains_byteSubstring[symmetric] twoNoHeadersCheck_def
        twoHeadersCheck_def nginxResponse_def)
  have w1: "\<not> wellFormedHeader ''X-Foo''" and w2: "\<not> wellFormedHeader ''X:Y:Z''"
    by (simp_all add: wellFormedHeader_def)
  have wn: "wellFormedHeader ''Server:nginx''" and wa: "wellFormedHeader ''Server:Apache''"
    by (simp_all add: wellFormedHeader_def)
  have hn: "hasHeader nginxResponse ''Server:nginx''"
    by (simp add: hasHeader_Split[OF wn] nginxResponse_def)
  have ha: "\<not> hasHeader nginxResponse ''Server:Apache''"
    by (simp add: hasHeader_Split[OF wa] nginxResponse_def)
  have h1: "Headers twoHeadersCheck = [''Server:nginx''] @ ''X-Foo'' # []"
    by (simp add: twoHeadersCheck_def)
  have h2: "Headers twoNoHeadersCheck = [''Server:nginx'']"
    by (simp add: twoNoHeadersCheck_def)
  have n2: "NoHeaders twoNoHeadersCheck = [''Server:Apache''] @ ''X:Y:Z'' # []"
    by (simp add: twoNoHeadersCheck_def)
  have h3: "Headers apacheFirstCheck = [''Server:Apache'', ''X-Foo'']"
    by (simp add: apacheFirstCheck_def)
  have p1: "\<forall>e \<in> set [''Server:nginx'']. wellFormedHeader e \<and> hasHeader nginxResponse e"
    using wn hn by simp
  have q2: "\<forall>e \<in> set [''Server:Apache'']. wellFormedHeader e \<and> \<not> hasHeader nginxResponse e"
    using wa ha by simp
  have p2: "\<forall>e \<in> set (Headers twoNoHeadersCheck). wellFormedHeader e \<and> hasHeader nginxResponse e"
    using wn hn by (simp add: h2)
  have r1: "Match (Some twoHeadersCheck) (Some nginxResponse) =
      (False, Some (ErrInvalidHeaderFormat ''X-Foo''))"
    unfolding Match_malformed_reached[OF sc1] using sr b1 w1 h1 p1 by blast
  have r2: "Match (Some twoNoHeadersCheck) (Some nginxResponse) =
      (False, Some (ErrInvalidHeaderFormat ''X:Y:Z''))"
    unfolding Match_malformed_reached[OF sc2] using sr b2 w2 p2 n2 q2 by blast
  have r3: "Match (Some apacheFirstCheck) (Some nginxResponse) \<noteq>
      (False, Some (ErrInvalidHeaderFormat ''X-Foo''))"
    unfolding Match_malformed_reached[OF sc3] using ha w1
    by (auto simp: h3 Cons_eq_append_conv)
  have r4: "Match (Some apacheFirstCheck) (Some nginxResponse) = (False, None)"
    by (simp add: Match_def matchFromOne_def apacheFirstCheck_def twoHeadersCheck_def
        nginxResponse_def)
  from sc1 sr b1 w1 h1 wn hn r1 sc2 b2 w2 h2 n2 wa ha r2 sc3 h3 r3 r4 show ?thesis by blast
qed

text \<open>
  C7. For a check with a status code and a response with another status code, \<open>Match\<close>
  returns \<open>(false, nil)\<close>: no body rule and no header entry is looked at, so the
  result is the same when the body rules would pass and when a header entry is
  malformed.
\<close>

theorem Match_status_gate:
  assumes "Check.StatusCode c = Some code"
    and "HTTPResponse.StatusCode r \<noteq> code"
  shows "Match (Some c) (Some r) = (False, None)"
  using assms by (simp add: Match_def)

theorem Match_status_gate_witness:
  "Check.StatusCode malformedCheck = Some 200 \<and>
   HTTPResponse.StatusCode notFoundResponse \<noteq> 200 \<and>
   \<not> wellFormedHeader (hd (Headers malformedCheck)) \<and>
   bodyStages malformedCheck notFoundResponse \<and>
   Match (Some malformedCheck) (Some notFoundResponse) = (False, None)"
proof -
  have sc: "Check.StatusCode malformedCheck = Some 200"
    by (simp add: malformedCheck_def)
  have ne: "HTTPResponse.StatusCode notFoundResponse \<noteq> 200"
    by (simp add: notFoundResponse_def)
  have wf: "\<not> wellFormedHeader (hd (Headers malformedCheck))"
    by (simp add: malformedCheck_def wellFormedHeader_def)
  have b: "bodyStages malformedCheck notFoundResponse"
    by (simp add: bodyStages_def Contains_byteSubstring[symmetric] malformedCheck_def
        notFoundResponse_def)
  from Match_status_gate[OF sc ne] sc ne wf b show ?thesis by blast
qed

text \<open>
  C10. For a check with a status code and an empty \<open>mustMatchAll\<close> list, the AND stage
  passes for every body: its loop never returns, and for a response with the check's
  status code \<open>Match\<close> returns what the stages from \<open>mustMatchOne\<close> on return. So the
  verdict is true as soon as those stages hold.
\<close>

theorem Match_empty_MustMatchAll:
  assumes "MustMatchAll c = []"
    and "Check.StatusCode c = Some (HTTPResponse.StatusCode r)"
  shows "matchAllLoop (MustMatchAll c) body = None \<and>
    Match (Some c) (Some r) = matchFromOne c r \<and>
    ((\<exists>m \<in> set (MustMatchOne c). byteSubstring m (Body r)) \<and>
     MustNotMatch c = [] \<and> Headers c = [] \<and> NoHeaders c = [] \<longrightarrow>
       Match (Some c) (Some r) = (True, None))"
  using assms by (simp add: Match_def matchFromOne_def matchOneLoop_eq)

theorem Match_empty_MustMatchAll_witness:
  "MustMatchAll (validCheck\<lparr>Headers := []\<rparr>) = [] \<and>
   Check.StatusCode (validCheck\<lparr>Headers := []\<rparr>) = Some (HTTPResponse.StatusCode nginxResponse) \<and>
   matchAllLoop (MustMatchAll (validCheck\<lparr>Headers := []\<rparr>)) ''any body'' = None \<and>
   (\<exists>m \<in> set (MustMatchOne (validCheck\<lparr>Headers := []\<rparr>)). byteSubstring m (Body nginxResponse)) \<and>
   Match (Some (validCheck\<lparr>Headers := []\<rparr>)) (Some nginxResponse) = (True, None)"
proof -
  let ?c = "validCheck\<lparr>Headers := []\<rparr>"
  have e: "MustMatchAll ?c = []"
    by (simp add: validCheck_def)
  have sc: "Check.StatusCode ?c = Some (HTTPResponse.StatusCode nginxResponse)"
    by (simp add: validCheck_def nginxResponse_def)
  have ex: "\<exists>m \<in> set (MustMatchOne ?c). byteSubstring m (Body nginxResponse)"
    by (simp add: Contains_byteSubstring[symmetric] validCheck_def nginxResponse_def)
  have rest: "MustNotMatch ?c = [] \<and> Headers ?c = [] \<and> NoHeaders ?c = []"
    by (simp add: validCheck_def)
  from Match_empty_MustMatchAll[OF e sc, of "''any body''"] e sc ex rest
  show ?thesis by blast
qed

section \<open>The loops of ParseSignatures\<close>

lemma checkHeadersLoop_None: "checkHeadersLoop hs = None \<longleftrightarrow> (\<forall>e \<in> set hs. wellFormedHeader e)"
  by (induction hs) (simp_all add: Count_count_list wellFormedHeader_def)

lemma checkHeadersLoop_first:
  "\<forall>e \<in> set hpre. wellFormedHeader e \<Longrightarrow> \<not> wellFormedHeader entry \<Longrightarrow>
   checkHeadersLoop (hpre @ entry # hpost) = Some (ErrInvalidHeaderFormat entry)"
  by (induction hpre) (simp_all add: Count_count_list wellFormedHeader_def)

lemma checksLoop_valid_head:
  "checkValid classify c \<Longrightarrow> checksLoop classify (c # rest) = checksLoop classify rest"
  by (auto simp: checkValid_def metadataValid_def checkHeadersLoop_None[symmetric])

lemma checksLoop_valid_prefix:
  "\<forall>x \<in> set pre. checkValid classify x \<Longrightarrow>
   checksLoop classify (pre @ rest) = checksLoop classify rest"
  by (induction pre) (simp_all add: checksLoop_valid_head del: checksLoop.simps(2))

lemma checksLoop_invalid_head:
  "\<not> checkValid classify c \<Longrightarrow> checksLoop classify (c # rest) \<noteq> None"
  by (auto simp: checkValid_def metadataValid_def checkHeadersLoop_None[symmetric]
      split: sum.split)

lemma checksLoop_None: "checksLoop classify cs = None \<longleftrightarrow> (\<forall>c \<in> set cs. checkValid classify c)"
proof (induction cs)
  case Nil
  show ?case by simp
next
  case (Cons c cs)
  show ?case
  proof (cases "checkValid classify c")
    case True
    then show ?thesis using Cons.IH by (simp add: checksLoop_valid_head del: checksLoop.simps(2))
  next
    case False
    then show ?thesis using checksLoop_invalid_head[of classify c cs] by auto
  qed
qed

lemma checksLoop_append:
  "checksLoop classify (xs @ ys) =
     (case checksLoop classify xs of Some err \<Rightarrow> Some err | None \<Rightarrow> checksLoop classify ys)"
  by (induction xs) (simp_all split: sum.split option.split)

lemma pluginsLoop_flat:
  "pluginsLoop classify ps = checksLoop classify (concat (map Checks ps))"
  by (induction ps) (simp_all add: checksLoop_append split: option.split)

lemma ParseSignatures_decoded:
  "ParseSignatures Unmarshal classify (Inr signData) =
     (case Unmarshal signData of
        Inl err \<Rightarrow> Inl err
      | Inr sign \<Rightarrow>
          (case checksLoop classify (allChecks sign) of
             Some err \<Rightarrow> Inl err
           | None \<Rightarrow> Inr sign))"
  by (simp add: ParseSignatures_def pluginsLoop_flat allChecks_def split: sum.split)

lemma ParseSignatures_invalid:
  assumes "Unmarshal signData = Inr sign"
    and "check \<in> set (allChecks sign)" and "\<not> checkValid classify check"
  shows "\<exists>err. ParseSignatures Unmarshal classify (Inr signData) = Inl err"
proof -
  from assms(2,3) have "checksLoop classify (allChecks sign) \<noteq> None"
    by (auto simp: checksLoop_None)
  then show ?thesis
    using assms(1) by (auto simp: ParseSignatures_decoded)
qed

lemma ParseSignatures_first:
  assumes "Unmarshal signData = Inr sign"
    and "allChecks sign = pre @ check # post"
    and "\<forall>x \<in> set pre. checkValid classify x"
    and "checksLoop classify (check # post) = Some err"
  shows "ParseSignatures Unmarshal classify (Inr signData) = Inl err"
  using assms
  by (simp add: ParseSignatures_decoded checksLoop_valid_prefix del: checksLoop.simps(2))

lemma ParseSignatures_first_header:
  assumes "Unmarshal signData = Inr sign"
    and "allChecks sign = pre @ check # post"
    and "\<forall>x \<in> set pre. checkValid classify x"
    and "metadataValid classify check"
    and "Headers check = hpre @ entry # hpost"
    and "\<forall>e \<in> set hpre. wellFormedHeader e"
    and "\<not> wellFormedHeader entry"
  shows "ParseSignatures Unmarshal classify (Inr signData) = Inl (ErrInvalidHeaderFormat entry)"
proof -
  from assms(5-7) have "checkHeadersLoop (Headers check) = Some (ErrInvalidHeaderFormat entry)"
    by (simp add: checkHeadersLoop_first)
  with assms(4) have "checksLoop classify (check # post) = Some (ErrInvalidHeaderFormat entry)"
    by (auto simp: metadataValid_def)
  with assms(1-3) show ?thesis by (rule ParseSignatures_first)
qed


text \<open>The loader never reads the \<open>NoHeaders\<close> field of a check.\<close>

lemma checksLoop_ignores_NoHeaders:
  "checksLoop classify (map (\<lambda>c. c\<lparr>NoHeaders := entries c\<rparr>) cs) = checksLoop classify cs"
  by (induction cs) (simp_all split: sum.split option.split)

lemma checkValid_validCheck: "checkValid StringToSeverity validCheck"
  by (simp add: checkValid_def metadataValid_def validCheck_def StringToSeverity_def
      wellFormedHeader_def)

lemma allChecks_documentOf: "allChecks (documentOf cs) = cs"
  by (simp add: allChecks_def documentOf_def)

section \<open>Claims about ParseSignatures\<close>




text \<open>
  C8. \<open>ParseSignatures\<close> fails on the first invalid check in document order. A
  document with a check whose severity is empty is never returned. When every check
  before a check is valid, the result is decided by that check alone, whatever comes
  after it, and its fields are validated in this order: an empty description, then an
  empty remediation, then an empty severity, each a \<open>MissingFieldError\<close> with the
  check's name and the field; then the error of the severity classifier; then the
  \<open>InvalidHeaderFormatError\<close> of the first malformed \<open>headers\<close> entry.
\<close>

theorem ParseSignatures_fail_fast:
  assumes "Unmarshal signData = Inr sign"
  shows
    "((\<exists>check \<in> set (allChecks sign). Severity check = []) \<longrightarrow>
        (\<exists>err. ParseSignatures Unmarshal classify (Inr signData) = Inl err)) \<and>
     (allChecks sign = pre @ check # post \<and> (\<forall>x \<in> set pre. checkValid classify x) \<longrightarrow>
        (Description check = [] \<longrightarrow>
           ParseSignatures Unmarshal classify (Inr signData) =
             Inl (ErrCheckInvalidField (Name check) ''description'')) \<and>
        (Description check \<noteq> [] \<and> Remediation check = [] \<longrightarrow>
           ParseSignatures Unmarshal classify (Inr signData) =
             Inl (ErrCheckInvalidField (Name check) ''remediation'')) \<and>
        (Description check \<noteq> [] \<and> Remediation check \<noteq> [] \<and> Severity check = [] \<longrightarrow>
           ParseSignatures Unmarshal classify (Inr signData) =
             Inl (ErrCheckInvalidField (Name check) ''severity'')) \<and>
        (Description check \<noteq> [] \<and> Remediation check \<noteq> [] \<and> Severity check \<noteq> [] \<and>
         classify (Severity check) = Inl err \<longrightarrow>
           ParseSignatures Unmarshal classify (Inr signData) = Inl err) \<and>
        (metadataValid classify check \<and> Headers check = hpre @ entry # hpost \<and>
         (\<forall>e \<in> set hpre. wellFormedHeader e) \<and> \<not> wellFormedHeader entry \<longrightarrow>
           ParseSignatures Unmarshal classify (Inr signData) =
             Inl (ErrInvalidHeaderFormat entry)))"
proof (intro conjI impI)
  assume "\<exists>check \<in> set (allChecks sign). Severity check = []"
  then obtain c where "c \<in> set (allChecks sign)" "\<not> checkValid classify c"
    by (auto simp: checkValid_def metadataValid_def)
  with assms show "\<exists>err. ParseSignatures Unmarshal classify (Inr signData) = Inl err"
    by (rule ParseSignatures_invalid)
next
  assume p: "allChecks sign = pre @ check # post \<and> (\<forall>x \<in> set pre. checkValid classify x)"
  have first: "ParseSignatures Unmarshal classify (Inr signData) = Inl e"
    if "checksLoop classify (check # post) = Some e" for e
    using assms p that ParseSignatures_first[of Unmarshal signData sign pre check post classify e]
    by blast
  {
    assume "Description check = []"
    then show "ParseSignatures Unmarshal classify (Inr signData) =
        Inl (ErrCheckInvalidField (Name check) ''description'')"
      by (intro first) simp
  }
  {
    assume "Description check \<noteq> [] \<and> Remediation check = []"
    then show "ParseSignatures Unmarshal classify (Inr signData) =
        Inl (ErrCheckInvalidField (Name check) ''remediation'')"
      by (intro first) auto
  }
  {
    assume "Description check \<noteq> [] \<and> Remediation check \<noteq> [] \<and> Severity check = []"
    then show "ParseSignatures Unmarshal classify (Inr signData) =
        Inl (ErrCheckInvalidField (Name check) ''severity'')"
      by (intro first) auto
  }
  {
    assume "Description check \<noteq> [] \<and> Remediation check \<noteq> [] \<and> Severity check \<noteq> [] \<and>
        classify (Severity check) = Inl err"
    then show "ParseSignatures Unmarshal classify (Inr signData) = Inl err"
      by (intro first) auto
  }
  {
    assume "metadataValid classify check \<and> Headers check = hpre @ entry # hpost \<and>
        (\<forall>e \<in> set hpre. wellFormedHeader e) \<and> \<not> wellFormedHeader entry"
    with assms p show "ParseSignatures Unmarshal classify (Inr signData) =
        Inl (ErrInvalidHeaderFormat entry)"
      using ParseSignatures_first_header[of Unmarshal signData sign pre check post classify
          hpre entry hpost] by blast
  }
qed

theorem ParseSignatures_fail_fast_witness:
  "decodeAs (documentOf [validCheck, noSeverityCheck, validCheck]) [] =
     Inr (documentOf [validCheck, noSeverityCheck, validCheck]) \<and>
   (\<exists>check \<in> set (allChecks (documentOf [validCheck, noSeverityCheck, validCheck])).
      Severity check = []) \<and>
   allChecks (documentOf [validCheck, noSeverityCheck, validCheck]) =
     [validCheck] @ noSeverityCheck # [validCheck] \<and>
   checkValid StringToSeverity validCheck \<and>
   Description noSeverityCheck \<noteq> [] \<and> Remediation noSeverityCheck \<noteq> [] \<and>
   Severity noSeverityCheck = [] \<and>
   ParseSignatures (decodeAs (documentOf [validCheck, noSeverityCheck, validCheck]))
     StringToSeverity (Inr []) = Inl (ErrCheckInvalidField ''nosev'' ''severity'') \<and>
   Description noDescriptionCheck = [] \<and>
   ParseSignatures (decodeAs (documentOf [noDescriptionCheck])) StringToSeverity (Inr []) =
     Inl (ErrCheckInvalidField ''nodesc'' ''description'')"
proof -
  let ?doc = "documentOf [validCheck, noSeverityCheck, validCheck]"
  have d: "decodeAs ?doc [] = Inr ?doc"
    by (simp add: decodeAs_def)
  have a: "allChecks ?doc = [validCheck] @ noSeverityCheck # [validCheck]"
    by (simp add: allChecks_documentOf)
  have ex: "\<exists>check \<in> set (allChecks ?doc). Severity check = []"
    by (simp add: allChecks_documentOf noSeverityCheck_def)
  have v: "\<forall>x \<in> set [validCheck]. checkValid StringToSeverity x"
    by (simp add: checkValid_validCheck)
  have f: "Description noSeverityCheck \<noteq> [] \<and> Remediation noSeverityCheck \<noteq> [] \<and>
      Severity noSeverityCheck = []"
    by (simp add: noSeverityCheck_def validCheck_def)
  have n: "Name noSeverityCheck = ''nosev''"
    by (simp add: noSeverityCheck_def)
  have r1: "ParseSignatures (decodeAs ?doc) StringToSeverity (Inr []) =
      Inl (ErrCheckInvalidField ''nosev'' ''severity'')"
    using ParseSignatures_fail_fast[where Unmarshal = "decodeAs ?doc" and signData = "[]"
        and sign = ?doc and classify = StringToSeverity and pre = "[validCheck]"
        and check = noSeverityCheck and post = "[validCheck]"] d a v f n
    by simp
  let ?doc2 = "documentOf [noDescriptionCheck]"
  have d2: "decodeAs ?doc2 [] = Inr ?doc2"
    by (simp add: decodeAs_def)
  have a2: "allChecks ?doc2 = [] @ noDescriptionCheck # []"
    by (simp add: allChecks_documentOf)
  have f2: "Description noDescriptionCheck = []" and n2: "Name noDescriptionCheck = ''nodesc''"
    by (simp_all add: noDescriptionCheck_def)
  have r2: "ParseSignatures (decodeAs ?doc2) StringToSeverity (Inr []) =
      Inl (ErrCheckInvalidField ''nodesc'' ''description'')"
    using ParseSignatures_fail_fast[where Unmarshal = "decodeAs ?doc2" and signData = "[]"
        and sign = ?doc2 and classify = StringToSeverity and pre = "[]"
        and check = noDescriptionCheck and post = "[]"] d2 a2 f2 n2
    by simp
  from d ex a checkValid_validCheck f r1 f2 r2 show ?thesis by blast
qed

section \<open>Claims about PrintSignatures\<close>

lemma printChecksLoop_eq:
  "printChecksLoop sevStr plugin cs (rows, cpt) =
     (rows @ map (\<lambda>c. rowOf (plugin, c)) (filter (\<lambda>c. Severity c = sevStr) cs),
      cpt + int (length (filter (\<lambda>c. Severity c = sevStr) cs)))"
  by (induction cs arbitrary: rows cpt) (auto simp: rowOf_def)

lemma printPluginsLoop_eq:
  "printPluginsLoop sevStr ps (rows, cpt) =
     (rows @ map rowOf
        (filter (\<lambda>pc. Severity (snd pc) = sevStr)
           (concat (map (\<lambda>p. map (Pair p) (Checks p)) ps))),
      cpt + int (length (filter (\<lambda>c. Severity c = sevStr) (concat (map Checks ps)))))"
proof (induction ps arbitrary: rows cpt)
  case Nil
  show ?case by simp
next
  case (Cons p ps)
  have "map rowOf (filter (\<lambda>pc. Severity (snd pc) = sevStr) (map (Pair p) (Checks p))) =
      map (\<lambda>c. rowOf (p, c)) (filter (\<lambda>c. Severity c = sevStr) (Checks p))"
    by (simp add: filter_map comp_def)
  then show ?case
    by (simp add: printChecksLoop_eq Cons.IH)
qed

lemma documentOrder_checks:
  "map snd (filter (\<lambda>pc. P (snd pc)) (concat (map (\<lambda>p. map (Pair p) (Checks p)) ps))) =
     filter P (concat (map Checks ps))"
  by (induction ps) (simp_all add: filter_map comp_def)

text \<open>
  C9. For every signature set and every severity string, the rows of the report are
  the rows of exactly the checks whose severity equals the string, in document order
  (the plugins in order, and the checks in order within each plugin), each with the
  endpoints of its plugin, and the total of the footer is the number of those checks.
\<close>

theorem PrintSignatures_filters:
  "PrintSignatures (Some sign) sevStr =
     Inr \<lparr>TableHeader = [''Endpoint'', ''Check Name'', ''Severity'', ''Description''],
          TableRows = map rowOf (filter (\<lambda>pc. Severity (snd pc) = sevStr) (documentOrder sign)),
          TableTotal = int (length (filter (\<lambda>c. Severity c = sevStr) (allChecks sign)))\<rparr> \<and>
   map snd (filter (\<lambda>pc. Severity (snd pc) = sevStr) (documentOrder sign)) =
     filter (\<lambda>c. Severity c = sevStr) (allChecks sign)"
  using documentOrder_checks[of "\<lambda>c. Severity c = sevStr" "Plugins sign"]
  by (simp add: PrintSignatures_def printPluginsLoop_eq documentOrder_def allChecks_def)

theorem PrintSignatures_filters_witness:
  "PrintSignatures (Some reportDocument) ''high'' =
     Inr \<lparr>TableHeader = [''Endpoint'', ''Check Name'', ''Severity'', ''Description''],
          TableRows = [([''/a''], ''ok'', ''high'', ''d''), ([''/b''], ''bad'', ''high'', ''d'')],
          TableTotal = 2\<rparr> \<and>
   filter (\<lambda>c. Severity c = ''high'') (allChecks reportDocument) = [validCheck, malformedCheck]"
proof -
  have f: "filter (\<lambda>c. Severity c = ''high'') (allChecks reportDocument) =
      [validCheck, malformedCheck]"
    by (simp add: allChecks_def reportDocument_def validCheck_def twoHeadersCheck_def
        malformedCheck_def)
  have r: "map rowOf (filter (\<lambda>pc. Severity (snd pc) = ''high'') (documentOrder reportDocument)) =
      [([''/a''], ''ok'', ''high'', ''d''), ([''/b''], ''bad'', ''high'', ''d'')]"
    by (simp add: documentOrder_def reportDocument_def rowOf_def validCheck_def
        twoHeadersCheck_def malformedCheck_def)
  from PrintSignatures_filters[of reportDocument "''high''"] f r show ?thesis by simp
qed

end
